theory Spec2Isabelle
  imports Main "HOL-Library.Word"
begin

section \<open>JavaScript strings\<close>

text \<open>
  A JavaScript string is a sequence of UTF-16 code units. The literals of the source are
  ASCII, so \<open>lit\<close> maps each character of an Isabelle literal to its code unit.
\<close>

type_synonym jschar = "16 word"
type_synonym jsstring = "jschar list"

definition lit :: "string \<Rightarrow> jsstring" where
  "lit s = map of_char s"

subsection \<open>\<open>Date.now().toString()\<close>\<close>

text \<open>
  \<open>Date.now()\<close> is an integer number of milliseconds since 1970, taken here from a clock
  set after that date, so a natural number; \<open>toString\<close> on such a number yields its
  decimal digits, most significant first, without sign or padding.
\<close>

definition digit :: "nat \<Rightarrow> jschar" where
  "digit d = of_nat (48 + d)"

fun toString :: "nat \<Rightarrow> jsstring" where
  "toString n = (if n < 10 then [digit n] else toString (n div 10) @ [digit (n mod 10)])"

declare toString.simps [simp del]

text \<open>The number a decimal identifier denotes; it shows that \<open>toString\<close> is injective.\<close>

definition digit_value :: "jschar \<Rightarrow> nat" where
  "digit_value c = unat c - 48"

definition id_value :: "jsstring \<Rightarrow> nat" where
  "id_value s = foldl (\<lambda>acc c. 10 * acc + digit_value c) 0 s"

subsection \<open>\<open>String.prototype.trim\<close>\<close>

text \<open>
  \<open>trim\<close> removes leading and trailing code units that are ECMAScript WhiteSpace
  (TAB, VT, FF, SP, NBSP, ZWNBSP and the Unicode space separators) or LineTerminator
  (LF, CR, LS, PS). All of them lie in the basic plane, so one code unit each.
\<close>

definition WhiteSpace :: "jschar list" where
  "WhiteSpace = [0x0009, 0x000B, 0x000C, 0x0020, 0x00A0, 0xFEFF, 0x1680,
     0x2000, 0x2001, 0x2002, 0x2003, 0x2004, 0x2005, 0x2006, 0x2007, 0x2008, 0x2009, 0x200A,
     0x202F, 0x205F, 0x3000]"

definition LineTerminator :: "jschar list" where
  "LineTerminator = [0x000A, 0x000D, 0x2028, 0x2029]"

definition is_trimmed_unit :: "jschar \<Rightarrow> bool" where
  "is_trimmed_unit c = (c \<in> set (WhiteSpace @ LineTerminator))"

definition trim :: "jsstring \<Rightarrow> jsstring" where
  "trim s = rev (dropWhile is_trimmed_unit (rev (dropWhile is_trimmed_unit s)))"

subsection \<open>\<open>String.prototype.replace\<close> with a string pattern\<close>

text \<open>
  With a string (not a regular expression) as pattern, \<open>replace\<close> rewrites the first
  occurrence only and returns the receiver unchanged when there is none. The replacement
  used by the source is the empty string, which has no \<open>$\<close> patterns to expand.
\<close>

fun replace :: "jsstring \<Rightarrow> jsstring \<Rightarrow> jsstring \<Rightarrow> jsstring" where
  "replace [] pat rep = (if pat = [] then rep else [])"
| "replace (c # cs) pat rep =
     (if take (length pat) (c # cs) = pat then rep @ drop (length pat) (c # cs)
      else c # replace cs pat rep)"

section \<open>Data model\<close>

datatype role = User | Assistant

text \<open>
  The \<open>Message\<close> of \<open>chat-message\<close>: \<open>id\<close>, \<open>content\<close>, \<open>role\<close>, \<open>timestamp\<close>. A \<open>Date\<close> is
  its millisecond reading.
\<close>

record Message =
  msg_id :: jsstring
  content :: jsstring
  role :: role
  timestamp :: nat

text \<open>
  \<open>ChatbotProps.applicationContext\<close>. The type \<open>'n\<close> stands for the JavaScript
  \<open>number\<close> of the score fields, which the widget only passes on and formats.
\<close>

record 'n Requirement =
  vacancy_req :: jsstring
  user_req_data :: jsstring
  match_percent :: 'n

record 'n MatchingSections =
  requirements :: "'n Requirement list"
  FIT_SCORE :: 'n

record 'n ApplicationContext =
  ctx_id :: jsstring
  vacancy_id :: jsstring
  first_name :: jsstring
  last_name :: jsstring
  email :: jsstring
  resume_pdf :: jsstring
  matching_score :: 'n
  matching_sections :: "'n MatchingSections"

text \<open>
  The object handed to \<open>JSON.stringify\<close> before \<open>ws.send\<close>: \<open>message\<close>, \<open>history\<close> (a list
  of \<open>{role, content}\<close> pairs) and \<open>context\<close>, which is \<open>None\<close> when the prop is
  \<open>undefined\<close>. A frame of the fallback widget is the bare text.
\<close>

record 'n Payload =
  message :: jsstring
  history :: "(role \<times> jsstring) list"
  "context" :: "'n ApplicationContext option"

datatype 'n outbound = Json "'n Payload" | Text jsstring

subsection \<open>The API configuration\<close>

text \<open>
  \<open>import.meta.env.X || d\<close>: the default is taken when the variable is undefined or the
  empty string.
\<close>

definition env_or :: "jsstring option \<Rightarrow> jsstring \<Rightarrow> jsstring" where
  "env_or v d = (case v of None \<Rightarrow> d | Some s \<Rightarrow> if s = [] then d else s)"

record ApiEndpoints =
  chat :: jsstring
  chatWs :: "jsstring \<Rightarrow> jsstring"

record ApiConfig =
  baseUrl :: jsstring
  wsUrl :: jsstring
  endpoints :: ApiEndpoints

definition apiConfig :: "jsstring option \<Rightarrow> jsstring option \<Rightarrow> ApiConfig" where
  "apiConfig VITE_API_URL VITE_WS_URL =
     (let API_URL = env_or VITE_API_URL (lit ''http://localhost:8000'');
          WS_URL = env_or VITE_WS_URL (lit ''ws://localhost:8000'')
      in \<lparr>baseUrl = API_URL, wsUrl = WS_URL,
          endpoints = \<lparr>chat = API_URL @ lit ''/api/chat'',
                       chatWs = (\<lambda>applicationId. WS_URL @ lit ''/ws/chat/'' @ applicationId)\<rparr>\<rparr>)"

subsection \<open>The WebSocket\<close>

datatype readyState = CONNECTING | OPEN | CLOSING | CLOSED

datatype js_value = JsString jsstring | JsFunction "jsstring \<Rightarrow> jsstring"

datatype js_error = InvalidStateError

text \<open>
  The socket as the widget sees it: the value given to the constructor, the ready state,
  the frames accepted for transmission, and the frames passed to \<open>send\<close> after the
  closing handshake started, which the browser drops.
\<close>

record 'n WebSocket =
  url_arg :: js_value
  readyState :: readyState
  sent :: "'n outbound list"
  discarded :: "'n outbound list"

definition new_WebSocket :: "js_value \<Rightarrow> 'n WebSocket" where
  "new_WebSocket u = \<lparr>url_arg = u, readyState = CONNECTING, sent = [], discarded = []\<rparr>"

text \<open>\<open>send\<close> throws while connecting, transmits while open and drops afterwards.\<close>

definition ws_send :: "'n WebSocket \<Rightarrow> 'n outbound \<Rightarrow> js_error + 'n WebSocket" where
  "ws_send ws d =
     (case readyState ws of
        CONNECTING \<Rightarrow> Inl InvalidStateError
      | OPEN \<Rightarrow> Inr (ws\<lparr>sent := sent ws @ [d]\<rparr>)
      | CLOSING \<Rightarrow> Inr (ws\<lparr>discarded := discarded ws @ [d]\<rparr>)
      | CLOSED \<Rightarrow> Inr (ws\<lparr>discarded := discarded ws @ [d]\<rparr>))"

text \<open>\<open>close\<close> starts the closing handshake unless the socket is already closed.\<close>

definition ws_close :: "'n WebSocket \<Rightarrow> 'n WebSocket" where
  "ws_close ws = (if readyState ws = CLOSED then ws else ws\<lparr>readyState := CLOSING\<rparr>)"

section \<open>The \<open>Chatbot\<close> component\<close>

text \<open>
  The component's state: the \<open>messages\<close> of \<open>useState\<close>, the socket in \<open>wsRef\<close>, the
  \<open>applicationContext\<close> prop and the lines written to the console. A handler created by
  a render reads the \<open>messages\<close> of that render; \<open>last_render\<close> is that value, which
  stays behind the state from an update until the next render.
\<close>

record 'n chatbot =
  messages :: "Message list"
  last_render :: "Message list"
  wsRef :: "'n WebSocket option"
  applicationContext :: "'n ApplicationContext option"
  console :: "jsstring list"

text \<open>
  The text of the first message. \<open>fmt\<close> is the conversion of a number inside a template
  literal.
\<close>

definition greeting :: "('n \<Rightarrow> jsstring) \<Rightarrow> 'n ApplicationContext option \<Rightarrow> jsstring" where
  "greeting fmt ctx =
     (case ctx of
        Some c \<Rightarrow>
          lit ''Hello '' @ first_name c
          @ lit ''! I'm here to help clarify your application. I can see your matching score is ''
          @ fmt (matching_score c)
          @ lit ''%. Let me ask you a few questions to better understand your qualifications.''
      | None \<Rightarrow> lit ''Hello! How can I help you today?'')"

definition initial_message :: "('n \<Rightarrow> jsstring) \<Rightarrow> 'n ApplicationContext option \<Rightarrow> nat \<Rightarrow> Message" where
  "initial_message fmt ctx date =
     \<lparr>msg_id = lit ''1'', content = greeting fmt ctx, role = Assistant, timestamp = date\<rparr>"

text \<open>The state after the first render: \<open>useState\<close>, an empty ref, the prop.\<close>

definition Chatbot_useState :: "('n \<Rightarrow> jsstring) \<Rightarrow> 'n ApplicationContext option \<Rightarrow> nat \<Rightarrow> 'n chatbot" where
  "Chatbot_useState fmt ctx date =
     \<lparr>messages = [initial_message fmt ctx date],
      last_render = [initial_message fmt ctx date], wsRef = None,
      applicationContext = ctx, console = []\<rparr>"

text \<open>
  The effect: \<open>new WebSocket(apiConfig.endpoints.chatWs)\<close>, stored in \<open>wsRef\<close>. The
  argument is the member \<open>chatWs\<close> itself.
\<close>

definition Chatbot_useEffect :: "ApiConfig \<Rightarrow> 'n chatbot \<Rightarrow> 'n chatbot" where
  "Chatbot_useEffect cfg s = s\<lparr>wsRef := Some (new_WebSocket (JsFunction (chatWs (endpoints cfg))))\<rparr>"

definition Chatbot_mount ::
  "ApiConfig \<Rightarrow> ('n \<Rightarrow> jsstring) \<Rightarrow> 'n ApplicationContext option \<Rightarrow> nat \<Rightarrow> 'n chatbot" where
  "Chatbot_mount cfg fmt ctx date = Chatbot_useEffect cfg (Chatbot_useState fmt ctx date)"

subsection \<open>Socket handlers\<close>

definition priming :: "'n ApplicationContext \<Rightarrow> 'n Payload" where
  "priming c = \<lparr>message = lit ''Initialize conversation with application context'',
                history = [], context = Some c\<rparr>"

definition onopen :: "'n chatbot \<Rightarrow> js_error + 'n chatbot" where
  "onopen s =
     (let s1 = s\<lparr>console := console s @ [lit ''WebSocket connected'']\<rparr>
      in case applicationContext s1 of
           None \<Rightarrow> Inr s1
         | Some c \<Rightarrow>
             (case wsRef s1 of
                None \<Rightarrow> Inr s1
              | Some ws \<Rightarrow>
                  if readyState ws = OPEN
                  then (case ws_send ws (Json (priming c)) of
                          Inl e \<Rightarrow> Inl e
                        | Inr ws' \<Rightarrow> Inr (s1\<lparr>wsRef := Some ws'\<rparr>))
                  else Inr s1))"

text \<open>\<open>now\<close> is the reading of \<open>Date.now()\<close>, \<open>date\<close> that of \<open>new Date()\<close>.\<close>

definition onmessage :: "'n chatbot \<Rightarrow> jsstring \<Rightarrow> nat \<Rightarrow> nat \<Rightarrow> 'n chatbot" where
  "onmessage s responseText now date =
     (if responseText \<noteq> lit ''connected''
      then s\<lparr>messages := messages s @
              [\<lparr>msg_id = toString now, content = responseText, role = Assistant,
                timestamp = date\<rparr>]\<rparr>
      else s)"

definition onerror :: "'n chatbot \<Rightarrow> 'n chatbot" where
  "onerror s = s\<lparr>console := console s @ [lit ''WebSocket error:'']\<rparr>"

definition onclose :: "'n chatbot \<Rightarrow> 'n chatbot" where
  "onclose s = s\<lparr>console := console s @ [lit ''WebSocket disconnected'']\<rparr>"

text \<open>The cleanup of the effect: \<open>ws.close()\<close>.\<close>

definition cleanup :: "'n chatbot \<Rightarrow> 'n chatbot" where
  "cleanup s = (case wsRef s of None \<Rightarrow> s | Some ws \<Rightarrow> s\<lparr>wsRef := Some (ws_close ws)\<rparr>)"

subsection \<open>\<open>handleSendMessage\<close>\<close>

text \<open>
  \<open>rendered\<close> is the \<open>messages\<close> value the handler closed over at the last render;
  \<open>setMessages\<close> with an updater function works on the current state.
\<close>

definition handleSendMessage ::
  "'n chatbot \<Rightarrow> Message list \<Rightarrow> jsstring \<Rightarrow> nat \<Rightarrow> nat \<Rightarrow> js_error + 'n chatbot" where
  "handleSendMessage s rendered msg now date =
     (let userMessage = \<lparr>msg_id = toString now, content = msg, role = User, timestamp = date\<rparr>;
          s1 = s\<lparr>messages := messages s @ [userMessage]\<rparr>;
          conversationHistory =
            map (\<lambda>m. (role m, content m))
              (filter (\<lambda>m. msg_id m \<noteq> lit ''1'') (rendered @ [userMessage]));
          not_connected = s1\<lparr>console := console s1 @ [lit ''WebSocket is not connected'']\<rparr>
      in case wsRef s1 of
           None \<Rightarrow> Inr not_connected
         | Some ws \<Rightarrow>
             if readyState ws = OPEN
             then (case ws_send ws
                      (Json \<lparr>message = msg, history = conversationHistory,
                             context = applicationContext s1\<rparr>) of
                     Inl e \<Rightarrow> Inl e
                   | Inr ws' \<Rightarrow> Inr (s1\<lparr>wsRef := Some ws'\<rparr>))
             else Inr not_connected)"

subsection \<open>Events of one session\<close>

text \<open>
  What can happen to a mounted widget: the socket opens, a text frame arrives, the user
  sends a message through the input, the socket reports an error, the connection closes,
  the component unmounts, the component renders again. A user send runs the
  \<open>handleSendMessage\<close> of the last render, which has closed over the \<open>messages\<close> of
  that render; the socket handlers belong to the effect and use \<open>setMessages\<close> with an
  updater only. The browser sets the ready state before it calls \<open>onopen\<close> and
  \<open>onclose\<close>, and opens only a connecting socket.
\<close>

datatype event =
    Opened
  | Frame jsstring nat nat
  | UserSend jsstring nat nat
  | Errored
  | Closed
  | Unmounted
  | Rendered

fun step :: "'n chatbot \<Rightarrow> event \<Rightarrow> js_error + 'n chatbot" where
  "step s Opened =
     (case wsRef s of
        None \<Rightarrow> Inr s
      | Some ws \<Rightarrow>
          if readyState ws = CONNECTING
          then onopen (s\<lparr>wsRef := Some (ws\<lparr>readyState := OPEN\<rparr>)\<rparr>)
          else Inr s)"
| "step s (Frame responseText now date) = Inr (onmessage s responseText now date)"
| "step s (UserSend msg now date) = handleSendMessage s (last_render s) msg now date"
| "step s Errored = Inr (onerror s)"
| "step s Closed =
     (case wsRef s of
        None \<Rightarrow> Inr s
      | Some ws \<Rightarrow> Inr (onclose (s\<lparr>wsRef := Some (ws\<lparr>readyState := CLOSED\<rparr>)\<rparr>)))"
| "step s Unmounted = Inr (cleanup s)"
| "step s Rendered = Inr (s\<lparr>last_render := messages s\<rparr>)"

fun run :: "'n chatbot \<Rightarrow> event list \<Rightarrow> js_error + 'n chatbot" where
  "run s [] = Inr s"
| "run s (e # es) = (case step s e of Inl err \<Rightarrow> Inl err | Inr s' \<Rightarrow> run s' es)"

text \<open>The frames the session has transmitted, and those it lost to a closed socket.\<close>

definition transmitted :: "'n chatbot \<Rightarrow> 'n outbound list" where
  "transmitted s = (case wsRef s of None \<Rightarrow> [] | Some ws \<Rightarrow> sent ws)"

definition dropped :: "'n chatbot \<Rightarrow> 'n outbound list" where
  "dropped s = (case wsRef s of None \<Rightarrow> [] | Some ws \<Rightarrow> discarded ws)"

text \<open>The readings of \<open>Date.now()\<close> a run of events consumes, in order.\<close>

fun clock_reads :: "event list \<Rightarrow> nat list" where
  "clock_reads [] = []"
| "clock_reads (Frame responseText now date # es) =
     (if responseText \<noteq> lit ''connected'' then now # clock_reads es else clock_reads es)"
| "clock_reads (UserSend msg now date # es) = now # clock_reads es"
| "clock_reads (e # es) = clock_reads es"

section \<open>The fallback \<open>Chatbot\<close>\<close>

text \<open>
  The variant without application context. Its \<open>onmessage\<close> touches only \<open>messages\<close>.
\<close>

definition fallback_onmessage :: "Message list \<Rightarrow> jsstring \<Rightarrow> nat \<Rightarrow> nat \<Rightarrow> Message list" where
  "fallback_onmessage prev responseText now date =
     (if responseText \<noteq> lit ''connected''
      then prev @
             [\<lparr>msg_id = toString now, content = replace responseText (lit ''echo: '') [],
               role = Assistant, timestamp = date\<rparr>]
      else prev)"

text \<open>
  Its \<open>handleSendMessage\<close> sends the bare text. The state is the same record; this
  variant has no context prop and leaves the field alone.
\<close>

definition fallback_handleSendMessage ::
  "'n chatbot \<Rightarrow> jsstring \<Rightarrow> nat \<Rightarrow> nat \<Rightarrow> js_error + 'n chatbot" where
  "fallback_handleSendMessage s msg now date =
     (let userMessage = \<lparr>msg_id = toString now, content = msg, role = User, timestamp = date\<rparr>;
          s1 = s\<lparr>messages := messages s @ [userMessage]\<rparr>;
          not_connected = s1\<lparr>console := console s1 @ [lit ''WebSocket is not connected'']\<rparr>
      in case wsRef s1 of
           None \<Rightarrow> Inr not_connected
         | Some ws \<Rightarrow>
             if readyState ws = OPEN
             then (case ws_send ws (Text msg) of
                     Inl e \<Rightarrow> Inl e
                   | Inr ws' \<Rightarrow> Inr (s1\<lparr>wsRef := Some ws'\<rparr>))
             else Inr not_connected)"

section \<open>\<open>ChatInput\<close>\<close>

record KeyboardEvent =
  key :: jsstring
  shiftKey :: bool

text \<open>
  Both handlers work on the textarea's value and call \<open>onSend\<close>, which acts on the state
  \<open>'st\<close> of the parent. \<open>handleKeyPress\<close> reads the event's target and also returns
  whether the default action was prevented; \<open>handleSendClick\<close> reads the element that
  \<open>document.querySelector("textarea")\<close> finds, if any.
\<close>

definition handleKeyPress ::
  "(jsstring \<Rightarrow> 'st \<Rightarrow> js_error + 'st) \<Rightarrow> KeyboardEvent \<Rightarrow> jsstring \<times> 'st
     \<Rightarrow> js_error + (bool \<times> jsstring \<times> 'st)" where
  "handleKeyPress onSend e = (\<lambda>(v, st).
     if key e = lit ''Enter'' \<and> \<not> shiftKey e
     then (if trim v \<noteq> []
           then (case onSend v st of
                   Inl err \<Rightarrow> Inl err
                 | Inr st' \<Rightarrow> Inr (True, [], st'))
           else Inr (True, v, st))
     else Inr (False, v, st))"

definition handleSendClick ::
  "(jsstring \<Rightarrow> 'st \<Rightarrow> js_error + 'st) \<Rightarrow> jsstring option \<times> 'st
     \<Rightarrow> js_error + (jsstring option \<times> 'st)" where
  "handleSendClick onSend = (\<lambda>(textarea, st).
     case textarea of
       None \<Rightarrow> Inr (None, st)
     | Some v \<Rightarrow>
         if trim v \<noteq> []
         then (case onSend v st of
                 Inl err \<Rightarrow> Inl err
               | Inr st' \<Rightarrow> Inr (Some [], st'))
         else Inr (Some v, st))"

text \<open>\<open><ChatInput onSend={handleSendMessage} />\<close>: the callback the \<open>Chatbot\<close> passes down.\<close>

definition Chatbot_onSend :: "nat \<Rightarrow> nat \<Rightarrow> jsstring \<Rightarrow> 'n chatbot \<Rightarrow> js_error + 'n chatbot" where
  "Chatbot_onSend now date msg s = handleSendMessage s (last_render s) msg now date"

text \<open>A callback that only records its arguments, to observe the calls.\<close>

definition record_call :: "jsstring \<Rightarrow> jsstring list \<Rightarrow> js_error + jsstring list" where
  "record_call msg calls = Inr (calls @ [msg])"

section \<open>Example sessions\<close>

text \<open>
  A session without application context, in a default environment, after the socket
  opened and one reply arrived, before the component has rendered again.
\<close>

definition welcomed :: "nat chatbot" where
  "welcomed =
     \<lparr>messages = [initial_message toString None 0,
                  \<lparr>msg_id = toString 1700000000000, content = lit ''Welcome'',
                   role = Assistant, timestamp = 1700000000001\<rparr>],
      last_render = [initial_message toString None 0],
      wsRef = Some \<lparr>url_arg = JsFunction (chatWs (endpoints (apiConfig None None))),
                    readyState = OPEN, sent = [], discarded = []\<rparr>,
      applicationContext = None,
      console = [lit ''WebSocket connected'']\<rparr>"

text \<open>An application context, and its session after the socket opened and one user send.\<close>

definition applicant_ana :: "nat ApplicationContext" where
  "applicant_ana =
     \<lparr>ctx_id = lit ''42'', vacancy_id = lit ''7'', first_name = lit ''Ana'',
      last_name = lit ''Lee'', email = lit ''ana@example.com'', resume_pdf = lit ''cv.pdf'',
      matching_score = 82,
      matching_sections = \<lparr>requirements = [], FIT_SCORE = 82\<rparr>\<rparr>"

definition primed :: "nat chatbot" where
  "primed =
     \<lparr>messages = [initial_message toString (Some applicant_ana) 0,
                  \<lparr>msg_id = toString 1700000000000, content = lit ''Hi'', role = User,
                   timestamp = 1700000000001\<rparr>],
      last_render = [initial_message toString (Some applicant_ana) 0],
      wsRef = Some \<lparr>url_arg = JsFunction (chatWs (endpoints (apiConfig None None))),
                    readyState = OPEN,
                    sent = [Json \<lparr>message = lit ''Initialize conversation with application context'',
                                  history = [], context = Some applicant_ana\<rparr>,
                            Json \<lparr>message = lit ''Hi'', history = [(User, lit ''Hi'')],
                                  context = Some applicant_ana\<rparr>],
                    discarded = []\<rparr>,
      applicationContext = Some applicant_ana,
      console = [lit ''WebSocket connected'']\<rparr>"

section \<open>Decimal identifiers, trimming and replacing\<close>

lemma digit_value_digit:
  assumes "d < 10"
  shows "digit_value (digit d) = d"
proof -
  have "unat (of_nat (48 + d) :: 16 word) = (48 + d) mod 2 ^ 16"
    by (simp add: unat_of_nat del: of_nat_add)
  also have "\<dots> = 48 + d" using assms by simp
  finally show ?thesis by (simp only: digit_value_def digit_def add_diff_cancel_left')
qed

lemma id_value_snoc: "id_value (s @ [c]) = 10 * id_value s + digit_value c"
  by (simp add: id_value_def)

lemma id_value_toString: "id_value (toString n) = n"
proof (induction n rule: toString.induct)
  case (1 n)
  show ?case
  proof (cases "n < 10")
    case True
    then show ?thesis
      by (subst toString.simps) (simp add: id_value_def digit_value_digit)
  next
    case False
    then have "id_value (toString (n div 10)) = n div 10" using 1 by simp
    with False show ?thesis
      by (subst toString.simps) (simp add: id_value_snoc digit_value_digit)
  qed
qed

lemma toString_inj: "toString a = toString b \<Longrightarrow> a = b"
  by (metis id_value_toString)

lemma toString_1: "toString 1 = lit ''1''"
  by (simp add: toString.simps digit_def lit_def)

lemma toString_eq_1: "toString n = lit ''1'' \<longleftrightarrow> n = 1"
proof
  assume "toString n = lit ''1''"
  then have "toString n = toString 1" by (simp only: toString_1)
  then show "n = 1" by (rule toString_inj)
next
  assume "n = 1"
  then show "toString n = lit ''1''" by (simp only: toString_1)
qed

lemma trim_eq_Nil: "trim v = [] \<longleftrightarrow> (\<forall>c \<in> set v. is_trimmed_unit c)"
proof -
  have "(\<forall>c \<in> set (dropWhile is_trimmed_unit v). is_trimmed_unit c)
        \<longleftrightarrow> (\<forall>c \<in> set v. is_trimmed_unit c)"
  proof
    assume a: "\<forall>c \<in> set (dropWhile is_trimmed_unit v). is_trimmed_unit c"
    have "dropWhile is_trimmed_unit v = []"
    proof (rule ccontr)
      assume ne: "dropWhile is_trimmed_unit v \<noteq> []"
      then have "\<not> is_trimmed_unit (hd (dropWhile is_trimmed_unit v))"
        by (rule hd_dropWhile)
      moreover have "hd (dropWhile is_trimmed_unit v) \<in> set (dropWhile is_trimmed_unit v)"
        using ne by (rule hd_in_set)
      ultimately show False using a by blast
    qed
    then show "\<forall>c \<in> set v. is_trimmed_unit c" by (simp add: dropWhile_eq_Nil_conv)
  next
    assume "\<forall>c \<in> set v. is_trimmed_unit c"
    then show "\<forall>c \<in> set (dropWhile is_trimmed_unit v). is_trimmed_unit c"
      using set_dropWhileD by fastforce
  qed
  then show ?thesis by (simp add: trim_def dropWhile_eq_Nil_conv)
qed

lemma take_eq_imp_append: "take (length pat) s = pat \<Longrightarrow> s = [] @ pat @ drop (length pat) s"
  by (metis append_Nil append_take_drop_id)

lemma replace_none:
  assumes "\<forall>a b. s \<noteq> a @ pat @ b"
  shows "replace s pat rep = s"
  using assms
proof (induction s)
  case Nil
  then have "pat \<noteq> []" by auto
  then show ?case by simp
next
  case (Cons c cs)
  have no_prefix: "take (length pat) (c # cs) \<noteq> pat"
    using Cons.prems take_eq_imp_append [of pat "c # cs"] by blast
  have "\<forall>a b. cs \<noteq> a @ pat @ b"
  proof (intro allI notI)
    fix a b assume "cs = a @ pat @ b"
    then have "c # cs = (c # a) @ pat @ b" by simp
    with Cons.prems show False by blast
  qed
  from Cons.IH [OF this] no_prefix show ?case by simp
qed

lemma replace_first:
  assumes "s = a @ pat @ b"
    and "\<forall>a' b'. s = a' @ pat @ b' \<longrightarrow> length a \<le> length a'"
  shows "replace s pat rep = a @ rep @ b"
  using assms
proof (induction a arbitrary: s)
  case Nil
  show ?case
  proof (cases s)
    case Nil
    with Nil.prems(1) show ?thesis by simp
  next
    case (Cons c cs)
    have "take (length pat) s = pat" "drop (length pat) s = b"
      using Nil.prems(1) by simp_all
    with Cons show ?thesis by simp
  qed
next
  case (Cons x a)
  let ?cs = "a @ pat @ b"
  have s: "s = x # ?cs" using Cons.prems(1) by simp
  have no_prefix: "take (length pat) (x # ?cs) \<noteq> pat"
  proof
    assume "take (length pat) (x # ?cs) = pat"
    then have "s = [] @ pat @ drop (length pat) s"
      using s take_eq_imp_append [of pat s] by simp
    with Cons.prems(2) have "length (x # a) \<le> length ([] :: jsstring)" by blast
    then show False by simp
  qed
  have "\<forall>a' b'. ?cs = a' @ pat @ b' \<longrightarrow> length a \<le> length a'"
  proof (intro allI impI)
    fix a' b' assume "?cs = a' @ pat @ b'"
    then have "s = (x # a') @ pat @ b'" using s by simp
    with Cons.prems(2) have "length (x # a) \<le> length (x # a')" by blast
    then show "length a \<le> length a'" by simp
  qed
  from Cons.IH [OF refl this] have "replace ?cs pat rep = a @ rep @ b" .
  with no_prefix s show ?case by simp
qed

section \<open>The handlers return\<close>

lemma ws_send_OPEN: "readyState ws = OPEN \<Longrightarrow> ws_send ws d = Inr (ws\<lparr>sent := sent ws @ [d]\<rparr>)"
  by (simp add: ws_send_def)

lemma onopen_total: "\<exists>s'. onopen s = Inr s'"
  by (simp add: onopen_def Let_def ws_send_OPEN split: option.split)

lemma handleSendMessage_total: "\<exists>s'. handleSendMessage s r m now date = Inr s'"
  by (simp add: handleSendMessage_def Let_def ws_send_OPEN split: option.split)

lemma step_total: "\<exists>s'. step s e = Inr s'"
  by (cases e) (simp_all add: onopen_total handleSendMessage_total split: option.split)

lemma run_total: "\<exists>s'. run s es = Inr s'"
proof (induction es arbitrary: s)
  case Nil
  show ?case by simp
next
  case (Cons e es)
  obtain s1 where "step s e = Inr s1" using step_total by blast
  with Cons show ?case by simp
qed

lemma run_append:
  "run s (xs @ ys) = (case run s xs of Inl err \<Rightarrow> Inl err | Inr s' \<Rightarrow> run s' ys)"
  by (induction xs arbitrary: s) (simp_all split: sum.split)

lemma run_snoc: "run s xs = Inr s1 \<Longrightarrow> run s (xs @ [e]) = step s1 e"
  by (simp add: run_append split: sum.split)

lemma handleSendMessage_open:
  assumes "wsRef s = Some ws" and "readyState ws = OPEN"
  shows "handleSendMessage s r msg now date =
    Inr (s\<lparr>messages := messages s @ [\<lparr>msg_id = toString now, content = msg, role = User, timestamp = date\<rparr>],
          wsRef := Some (ws\<lparr>sent := sent ws @
            [Json \<lparr>message = msg,
                   history = map (\<lambda>m. (role m, content m))
                     (filter (\<lambda>m. msg_id m \<noteq> lit ''1'')
                        (r @ [\<lparr>msg_id = toString now, content = msg, role = User, timestamp = date\<rparr>])),
                   context = applicationContext s\<rparr>]\<rparr>)\<rparr>)"
  using assms by (simp add: handleSendMessage_def Let_def ws_send_OPEN)

lemma handleSendMessage_not_open:
  assumes "\<forall>ws. wsRef s = Some ws \<longrightarrow> readyState ws \<noteq> OPEN"
  shows "handleSendMessage s r msg now date =
    Inr (s\<lparr>messages := messages s @ [\<lparr>msg_id = toString now, content = msg, role = User, timestamp = date\<rparr>],
          console := console s @ [lit ''WebSocket is not connected'']\<rparr>)"
  using assms by (simp add: handleSendMessage_def Let_def split: option.split)

lemma handleSendMessage_messages:
  assumes "handleSendMessage s r msg now date = Inr s'"
  shows "messages s' = messages s @ [\<lparr>msg_id = toString now, content = msg, role = User, timestamp = date\<rparr>]"
    and "applicationContext s' = applicationContext s"
  using assms
  by (auto simp: handleSendMessage_def Let_def ws_send_OPEN split: option.splits if_splits)

lemma onopen_messages:
  assumes "onopen s = Inr s'"
  shows "messages s' = messages s" and "applicationContext s' = applicationContext s"
  using assms
  by (auto simp: onopen_def Let_def ws_send_OPEN split: option.splits if_splits)

lemma step_messages:
  assumes "step s e = Inr s'"
  shows "\<exists>rest. messages s' = messages s @ rest \<and> map msg_id rest = map toString (clock_reads [e])"
proof (cases e)
  case Opened
  with assms show ?thesis
    by (auto split: option.splits if_splits dest: onopen_messages(1))
next
  case (Frame t now date)
  with assms show ?thesis by (auto simp: onmessage_def)
next
  case (UserSend msg now date)
  with assms show ?thesis by (auto dest: handleSendMessage_messages(1))
next
  case Errored
  with assms show ?thesis by (auto simp: onerror_def)
next
  case Closed
  with assms show ?thesis by (auto simp: onclose_def split: option.splits)
next
  case Unmounted
  with assms show ?thesis by (auto simp: cleanup_def split: option.splits)
next
  case Rendered
  with assms show ?thesis by auto
qed

lemma step_context:
  assumes "step s e = Inr s'"
  shows "applicationContext s' = applicationContext s"
proof (cases e)
  case Opened
  with assms show ?thesis
    by (auto split: option.splits if_splits dest: onopen_messages(2))
next
  case (Frame t now date)
  with assms show ?thesis by (auto simp: onmessage_def)
next
  case (UserSend msg now date)
  with assms show ?thesis by (auto dest: handleSendMessage_messages(2))
next
  case Errored
  with assms show ?thesis by (auto simp: onerror_def)
next
  case Closed
  with assms show ?thesis by (auto simp: onclose_def split: option.splits)
next
  case Unmounted
  with assms show ?thesis by (auto simp: cleanup_def split: option.splits)
next
  case Rendered
  with assms show ?thesis by auto
qed

lemma clock_reads_Cons: "clock_reads (e # es) = clock_reads [e] @ clock_reads es"
  by (cases e) simp_all

lemma clock_reads_append: "clock_reads (xs @ ys) = clock_reads xs @ clock_reads ys"
proof (induction xs)
  case Nil
  show ?case by simp
next
  case (Cons e xs)
  have "clock_reads ((e # xs) @ ys) = clock_reads [e] @ clock_reads (xs @ ys)"
    using clock_reads_Cons [of e "xs @ ys"] by simp
  also have "\<dots> = clock_reads [e] @ clock_reads xs @ clock_reads ys" using Cons by simp
  also have "\<dots> = clock_reads (e # xs) @ clock_reads ys"
    using clock_reads_Cons [of e xs] by simp
  finally show ?case .
qed

lemma run_messages:
  assumes "run s es = Inr s'"
  shows "\<exists>rest. messages s' = messages s @ rest \<and> map msg_id rest = map toString (clock_reads es)"
  using assms
proof (induction es arbitrary: s)
  case Nil
  then show ?case by simp
next
  case (Cons e es)
  obtain s1 where s1: "step s e = Inr s1" using step_total by blast
  with Cons.prems have "run s1 es = Inr s'" by simp
  from Cons.IH [OF this] obtain r2 where
    r2: "messages s' = messages s1 @ r2" "map msg_id r2 = map toString (clock_reads es)" by blast
  from step_messages [OF s1] obtain r1 where
    r1: "messages s1 = messages s @ r1" "map msg_id r1 = map toString (clock_reads [e])" by blast
  have "messages s' = messages s @ (r1 @ r2)" using r1 r2 by simp
  moreover have "map msg_id (r1 @ r2) = map toString (clock_reads (e # es))"
    using r1 r2 clock_reads_Cons [of e es] by simp
  ultimately show ?case by blast
qed

lemma run_context:
  assumes "run s es = Inr s'"
  shows "applicationContext s' = applicationContext s"
  using assms
proof (induction es arbitrary: s)
  case Nil
  then show ?case by simp
next
  case (Cons e es)
  obtain s1 where s1: "step s e = Inr s1" using step_total by blast
  with Cons.prems have "run s1 es = Inr s'" by simp
  from Cons.IH [OF this] step_context [OF s1] show ?case by simp
qed

lemma mount_messages: "messages (Chatbot_mount cfg fmt ctx d0) = [initial_message fmt ctx d0]"
  by (simp add: Chatbot_mount_def Chatbot_useEffect_def Chatbot_useState_def)

lemma mount_context: "applicationContext (Chatbot_mount cfg fmt ctx d0) = ctx"
  by (simp add: Chatbot_mount_def Chatbot_useEffect_def Chatbot_useState_def)

lemma filter_greeting:
  assumes "map msg_id rest = map toString ts" and "1 \<notin> set ts"
  shows "filter (\<lambda>m. msg_id m \<noteq> lit ''1'') rest = rest"
proof -
  have "\<forall>m \<in> set rest. msg_id m \<noteq> lit ''1''"
  proof
    fix m assume "m \<in> set rest"
    then have "msg_id m \<in> set (map msg_id rest)" by simp
    then have "msg_id m \<in> set (map toString ts)" using assms(1) by simp
    then obtain t where "t \<in> set ts" "msg_id m = toString t" by auto
    with assms(2) show "msg_id m \<noteq> lit ''1''" by (auto simp: toString_eq_1)
  qed
  then show ?thesis by simp
qed

section \<open>What a run of events keeps\<close>

lemma step_dropped:
  assumes "step s e = Inr s'"
  shows "dropped s' = dropped s"
proof (cases e)
  case Opened
  with assms show ?thesis
    by (auto simp: dropped_def onopen_def Let_def ws_send_OPEN split: option.splits if_splits)
next
  case (Frame t now date)
  with assms show ?thesis by (auto simp: dropped_def onmessage_def)
next
  case (UserSend msg now date)
  with assms show ?thesis
    by (auto simp: dropped_def handleSendMessage_def Let_def ws_send_OPEN
        split: option.splits if_splits)
next
  case Errored
  with assms show ?thesis by (auto simp: dropped_def onerror_def)
next
  case Closed
  with assms show ?thesis by (auto simp: dropped_def onclose_def split: option.splits)
next
  case Unmounted
  with assms show ?thesis
    by (auto simp: dropped_def cleanup_def ws_close_def split: option.splits)
next
  case Rendered
  with assms show ?thesis by (auto simp: dropped_def)
qed

lemma run_dropped:
  assumes "run s es = Inr s'"
  shows "dropped s' = dropped s"
  using assms
proof (induction es arbitrary: s)
  case Nil
  then show ?case by simp
next
  case (Cons e es)
  obtain s1 where s1: "step s e = Inr s1" using step_total by blast
  with Cons.prems have "run s1 es = Inr s'" by simp
  from Cons.IH [OF this] step_dropped [OF s1] show ?case by simp
qed

lemma step_idle:
  assumes "\<forall>ws. wsRef s = Some ws \<longrightarrow>
             readyState ws \<noteq> OPEN \<and> (readyState ws = CONNECTING \<longrightarrow> e \<noteq> Opened)"
  shows "\<exists>s'. step s e = Inr s' \<and> transmitted s' = transmitted s \<and>
           (\<forall>ws'. wsRef s' = Some ws' \<longrightarrow> readyState ws' \<noteq> OPEN \<and>
              (readyState ws' = CONNECTING \<longrightarrow>
                 (\<exists>ws. wsRef s = Some ws \<and> readyState ws = CONNECTING)))"
proof (cases e)
  case Opened
  with assms show ?thesis by (auto split: option.splits)
next
  case (Frame t now date)
  with assms show ?thesis by (auto simp: transmitted_def onmessage_def)
next
  case (UserSend msg now date)
  have "\<forall>ws. wsRef s = Some ws \<longrightarrow> readyState ws \<noteq> OPEN" using assms by blast
  from handleSendMessage_not_open [OF this, of "last_render s" msg now date] UserSend assms
  show ?thesis by (auto simp: transmitted_def)
next
  case Errored
  with assms show ?thesis by (auto simp: transmitted_def onerror_def)
next
  case Closed
  with assms show ?thesis by (auto simp: transmitted_def onclose_def split: option.splits)
next
  case Unmounted
  with assms show ?thesis
    by (auto simp: transmitted_def cleanup_def ws_close_def split: option.splits)
next
  case Rendered
  with assms show ?thesis by (auto simp: transmitted_def)
qed

lemma run_idle:
  assumes "\<forall>ws. wsRef s = Some ws \<longrightarrow>
             readyState ws \<noteq> OPEN \<and> (readyState ws = CONNECTING \<longrightarrow> Opened \<notin> set es)"
  shows "\<exists>s'. run s es = Inr s' \<and> transmitted s' = transmitted s \<and>
           (\<forall>ws'. wsRef s' = Some ws' \<longrightarrow> readyState ws' \<noteq> OPEN)"
  using assms
proof (induction es arbitrary: s)
  case Nil
  then show ?case by simp
next
  case (Cons e es)
  have "\<forall>ws. wsRef s = Some ws \<longrightarrow>
          readyState ws \<noteq> OPEN \<and> (readyState ws = CONNECTING \<longrightarrow> e \<noteq> Opened)"
    using Cons.prems by auto
  from step_idle [OF this] obtain s1 where
    s1: "step s e = Inr s1" "transmitted s1 = transmitted s"
      "\<forall>ws'. wsRef s1 = Some ws' \<longrightarrow> readyState ws' \<noteq> OPEN \<and>
         (readyState ws' = CONNECTING \<longrightarrow> (\<exists>ws. wsRef s = Some ws \<and> readyState ws = CONNECTING))"
    by blast
  have "\<forall>ws. wsRef s1 = Some ws \<longrightarrow>
          readyState ws \<noteq> OPEN \<and> (readyState ws = CONNECTING \<longrightarrow> Opened \<notin> set es)"
    using s1(3) Cons.prems by auto
  from Cons.IH [OF this] s1(1,2) show ?case by auto
qed

lemma mount_socket:
  "wsRef (Chatbot_mount cfg fmt ctx d0) = Some (new_WebSocket (JsFunction (chatWs (endpoints cfg))))"
  by (simp add: Chatbot_mount_def Chatbot_useEffect_def Chatbot_useState_def)

lemma step_sent_context:
  assumes "step s e = Inr s'"
  shows "\<exists>new. transmitted s' = transmitted s @ new \<and>
           (\<forall>f \<in> set new. \<exists>p. f = Json p \<and> context p = applicationContext s)"
proof (cases e)
  case Opened
  with assms show ?thesis
    by (auto simp: transmitted_def onopen_def Let_def ws_send_OPEN priming_def
        split: option.splits if_splits)
next
  case (Frame t now date)
  with assms show ?thesis by (auto simp: transmitted_def onmessage_def)
next
  case (UserSend msg now date)
  with assms show ?thesis
    by (auto simp: transmitted_def handleSendMessage_def Let_def ws_send_OPEN
        split: option.splits if_splits)
next
  case Errored
  with assms show ?thesis by (auto simp: transmitted_def onerror_def)
next
  case Closed
  with assms show ?thesis by (auto simp: transmitted_def onclose_def split: option.splits)
next
  case Unmounted
  with assms show ?thesis
    by (auto simp: transmitted_def cleanup_def ws_close_def split: option.splits)
next
  case Rendered
  with assms show ?thesis by (auto simp: transmitted_def)
qed

lemma run_sent_context:
  assumes "run s es = Inr s'"
  shows "\<exists>new. transmitted s' = transmitted s @ new \<and>
           (\<forall>f \<in> set new. \<exists>p. f = Json p \<and> context p = applicationContext s)"
  using assms
proof (induction es arbitrary: s)
  case Nil
  then show ?case by simp
next
  case (Cons e es)
  obtain s1 where s1: "step s e = Inr s1" using step_total by blast
  with Cons.prems have r: "run s1 es = Inr s'" by simp
  from step_sent_context [OF s1] obtain n1 where
    n1: "transmitted s1 = transmitted s @ n1"
      "\<forall>f \<in> set n1. \<exists>p. f = Json p \<and> context p = applicationContext s" by blast
  from Cons.IH [OF r] obtain n2 where
    n2: "transmitted s' = transmitted s1 @ n2"
      "\<forall>f \<in> set n2. \<exists>p. f = Json p \<and> context p = applicationContext s1" by blast
  have "applicationContext s1 = applicationContext s" using step_context [OF s1] .
  with n1 n2 have "transmitted s' = transmitted s @ (n1 @ n2) \<and>
      (\<forall>f \<in> set (n1 @ n2). \<exists>p. f = Json p \<and> context p = applicationContext s)"
    by auto
  then show ?case by blast
qed

section \<open>The history sent with a user message\<close>

text \<open>
  When the component has rendered since the transcript last changed, a user send on an
  open socket transmits a payload whose \<open>history\<close> is the transcript without its first
  entry, the greeting with identifier \<open>"1"\<close>, as \<open>(role, content)\<close> pairs in arrival
  order, followed by the new user message. The identifiers of the other messages are
  readings of \<open>Date.now()\<close>; the statement is for clocks that never read 1.
\<close>

lemma history_after_render:
  assumes "run (Chatbot_mount cfg fmt ctx d0) evs = Inr s"
    and "last_render s = messages s"
    and "1 \<notin> set (clock_reads evs)" and "now \<noteq> 1"
    and "wsRef s = Some ws" and "readyState ws = OPEN"
  shows "\<exists>prior. messages s = initial_message fmt ctx d0 # prior \<and>
      step s (UserSend msg now date) =
        Inr (s\<lparr>messages := messages s @
                 [\<lparr>msg_id = toString now, content = msg, role = User, timestamp = date\<rparr>],
              wsRef := Some (ws\<lparr>sent := sent ws @
                 [Json \<lparr>message = msg,
                        history = map (\<lambda>m. (role m, content m)) prior @ [(User, msg)],
                        context = ctx\<rparr>]\<rparr>)\<rparr>)"
proof -
  from run_messages [OF assms(1)] obtain prior where
    prior: "messages s = initial_message fmt ctx d0 # prior"
      "map msg_id prior = map toString (clock_reads evs)"
    by (auto simp: mount_messages)
  have ctx: "applicationContext s = ctx"
    using run_context [OF assms(1)] by (simp add: mount_context)
  have keep: "filter (\<lambda>m. msg_id m \<noteq> lit ''1'') prior = prior"
    using filter_greeting [OF prior(2) assms(3)] .
  have new: "toString now \<noteq> lit ''1''" using assms(4) by (simp add: toString_eq_1)
  have "filter (\<lambda>m. msg_id m \<noteq> lit ''1'')
          (messages s @ [\<lparr>msg_id = toString now, content = msg, role = User, timestamp = date\<rparr>])
        = prior @ [\<lparr>msg_id = toString now, content = msg, role = User, timestamp = date\<rparr>]"
    using keep new by (simp add: prior(1) initial_message_def)
  then show ?thesis
    using prior(1) ctx assms(2)
      handleSendMessage_open [OF assms(5,6), of "messages s" msg now date]
    by simp
qed

text \<open>
  Claim C1. The history is built from the \<open>messages\<close> the handler closed over at the last
  render, while the transcript is updated in the current state. In the session below the
  reply \<open>"Welcome"\<close> has arrived and is in the transcript, and the user sends \<open>"Hi"\<close>
  before the component renders again: the payload's history is the new user message
  alone and lacks the reply. Had the component rendered first, the history would hold
  both.
\<close>

theorem history_lacks_unrendered_frame:
  "run (Chatbot_mount (apiConfig None None) toString None 0)
       [Opened, Frame (lit ''Welcome'') 1700000000000 1700000000001] = Inr welcomed
   \<and> map (\<lambda>m. (role m, content m)) (messages welcomed)
     = [(Assistant, lit ''Hello! How can I help you today?''), (Assistant, lit ''Welcome'')]
   \<and> map_sum id transmitted
        (step welcomed (UserSend (lit ''Hi'') 1700000002000 1700000002001))
     = Inr [Json \<lparr>message = lit ''Hi'', history = [(User, lit ''Hi'')], context = None\<rparr>]
   \<and> map_sum id transmitted
        (run welcomed [Rendered, UserSend (lit ''Hi'') 1700000002000 1700000002001])
     = Inr [Json \<lparr>message = lit ''Hi'',
                  history = [(Assistant, lit ''Welcome''), (User, lit ''Hi'')],
                  context = None\<rparr>]"
proof -
  have reached: "run (Chatbot_mount (apiConfig None None) toString None 0)
       [Opened, Frame (lit ''Welcome'') 1700000000000 1700000000001] = Inr welcomed"
    by (simp add: welcomed_def Chatbot_mount_def Chatbot_useEffect_def Chatbot_useState_def
        new_WebSocket_def onopen_def onmessage_def lit_def)
  have transcript: "map (\<lambda>m. (role m, content m)) (messages welcomed)
     = [(Assistant, lit ''Hello! How can I help you today?''), (Assistant, lit ''Welcome'')]"
    by (simp add: welcomed_def initial_message_def greeting_def)
  have stale: "map_sum id transmitted
        (step welcomed (UserSend (lit ''Hi'') 1700000002000 1700000002001))
     = Inr [Json \<lparr>message = lit ''Hi'', history = [(User, lit ''Hi'')], context = None\<rparr>]"
    by (simp add: welcomed_def handleSendMessage_def Let_def ws_send_def transmitted_def
        initial_message_def toString.simps digit_def lit_def)
  have fresh: "map_sum id transmitted
        (run welcomed [Rendered, UserSend (lit ''Hi'') 1700000002000 1700000002001])
     = Inr [Json \<lparr>message = lit ''Hi'',
                  history = [(Assistant, lit ''Welcome''), (User, lit ''Hi'')],
                  context = None\<rparr>]"
    by (simp add: welcomed_def handleSendMessage_def Let_def ws_send_def transmitted_def
        initial_message_def toString.simps digit_def lit_def)
  from reached transcript stale fresh show ?thesis by blast
qed

section \<open>The scenario of a first message\<close>

text \<open>
  The first payload of a session does not carry an empty history: the user message just
  typed is already in it.
\<close>

theorem hi_scenario_empty_history_counterexample:
  "map_sum id transmitted
     (run (Chatbot_mount (apiConfig None None) toString (None :: nat ApplicationContext option) 0)
        [Opened, UserSend (lit ''Hi'') 1700000000000 1700000000000])
   \<noteq> Inr [Json \<lparr>message = lit ''Hi'', history = [], context = None\<rparr>]"
  by (simp add: Chatbot_mount_def Chatbot_useEffect_def Chatbot_useState_def new_WebSocket_def
      onopen_def handleSendMessage_def Let_def ws_send_def transmitted_def initial_message_def
      toString.simps digit_def lit_def)

text \<open>
  Claim C2, amended. Without application context, once the socket is open, the single send
  of \<open>"Hi"\<close> transmits exactly \<open>{message: "Hi", history: [{role: "user", content: "Hi"}],
  context: undefined}\<close>; when the reply \<open>"Hello, how can I help?"\<close> arrives as the next
  frame, exactly that text is appended as an assistant message and nothing more is sent.
\<close>

theorem hi_scenario:
  assumes "t \<noteq> 1"
  shows "\<exists>s1 s2.
      run (Chatbot_mount cfg fmt None d0) [Opened, UserSend (lit ''Hi'') t d] = Inr s1
    \<and> transmitted s1 =
        [Json \<lparr>message = lit ''Hi'', history = [(User, lit ''Hi'')], context = None\<rparr>]
    \<and> step s1 (Frame (lit ''Hello, how can I help?'') t' d') = Inr s2
    \<and> messages s2 = messages s1 @
        [\<lparr>msg_id = toString t', content = lit ''Hello, how can I help?'', role = Assistant,
          timestamp = d'\<rparr>]
    \<and> transmitted s2 = transmitted s1"
proof -
  have new: "toString t \<noteq> lit ''1''" using assms by (simp add: toString_eq_1)
  have reply: "lit ''Hello, how can I help?'' \<noteq> lit ''connected''" by (simp add: lit_def)
  show ?thesis
    using new reply
    by (simp add: Chatbot_mount_def Chatbot_useEffect_def Chatbot_useState_def new_WebSocket_def
        onopen_def handleSendMessage_def Let_def ws_send_def transmitted_def initial_message_def
        onmessage_def)
qed

theorem hi_scenario_witness:
  "(1700000000000 :: nat) \<noteq> 1 \<and>
   (\<exists>s1 s2.
      run (Chatbot_mount (apiConfig None None) toString (None :: nat ApplicationContext option) 0)
        [Opened, UserSend (lit ''Hi'') 1700000000000 1700000000001] = Inr s1
    \<and> transmitted s1 =
        [Json \<lparr>message = lit ''Hi'', history = [(User, lit ''Hi'')], context = None\<rparr>]
    \<and> step s1 (Frame (lit ''Hello, how can I help?'') 1700000000900 1700000000901) = Inr s2
    \<and> messages s2 = messages s1 @
        [\<lparr>msg_id = toString 1700000000900, content = lit ''Hello, how can I help?'',
          role = Assistant, timestamp = 1700000000901\<rparr>]
    \<and> transmitted s2 = transmitted s1)"
proof -
  have h: "(1700000000000 :: nat) \<noteq> 1" by simp
  from hi_scenario [OF h, of "apiConfig None None" toString 0 1700000000001
      1700000000900 1700000000901] h
  show ?thesis by blast
qed

section \<open>The priming envelope\<close>

text \<open>
  Claim C3. As long as the socket has not opened, nothing is transmitted, whatever the
  user sends. When it opens, the handler transmits exactly one frame if an application
  context was supplied, the envelope \<open>{message: "Initialize conversation with application
  context", history: [], context}\<close>, and none otherwise.
\<close>

theorem priming_on_open:
  assumes "run (Chatbot_mount cfg fmt ctx d0) evs = Inr s"
    and "Opened \<notin> set evs"
    and "wsRef s = Some ws" and "readyState ws = CONNECTING"
  shows "transmitted s = [] \<and>
    (\<exists>s'. step s Opened = Inr s' \<and>
       transmitted s' =
         (case ctx of
            None \<Rightarrow> []
          | Some c \<Rightarrow>
              [Json \<lparr>message = lit ''Initialize conversation with application context'',
                     history = [], context = Some c\<rparr>]))"
proof -
  have "\<forall>ws. wsRef (Chatbot_mount cfg fmt ctx d0) = Some ws \<longrightarrow>
          readyState ws \<noteq> OPEN \<and> (readyState ws = CONNECTING \<longrightarrow> Opened \<notin> set evs)"
    using assms(2) by (simp add: mount_socket new_WebSocket_def)
  from run_idle [OF this] assms(1)
  have quiet: "transmitted s = []"
    by (auto simp: transmitted_def mount_socket new_WebSocket_def)
  then have sent: "sent ws = []" using assms(3) by (simp add: transmitted_def)
  have ctx: "applicationContext s = ctx"
    using run_context [OF assms(1)] by (simp add: mount_context)
  show ?thesis
    using quiet sent ctx assms(3,4)
    by (auto simp: onopen_def Let_def ws_send_def transmitted_def priming_def
        split: option.splits)
qed

theorem priming_on_open_witness:
  "run (Chatbot_mount (apiConfig None None) toString (Some applicant_ana) 0)
     [UserSend (lit ''Hi'') 1700000000000 1700000000001]
   = Inr \<lparr>messages = [initial_message toString (Some applicant_ana) 0,
                       \<lparr>msg_id = toString 1700000000000, content = lit ''Hi'', role = User,
                        timestamp = 1700000000001\<rparr>],
           last_render = [initial_message toString (Some applicant_ana) 0],
           wsRef = Some (new_WebSocket (JsFunction (chatWs (endpoints (apiConfig None None))))),
           applicationContext = Some applicant_ana,
           console = [lit ''WebSocket is not connected'']\<rparr>
   \<and> Opened \<notin> set [UserSend (lit ''Hi'') 1700000000000 1700000000001]
   \<and> map_sum id transmitted
       (run (Chatbot_mount (apiConfig None None) toString (Some applicant_ana) 0)
          [UserSend (lit ''Hi'') 1700000000000 1700000000001, Opened])
     = Inr [Json \<lparr>message = lit ''Initialize conversation with application context'',
                  history = [], context = Some applicant_ana\<rparr>]"
proof -
  let ?ws = "new_WebSocket (JsFunction (chatWs (endpoints (apiConfig None None)))) :: nat WebSocket"
  let ?s = "\<lparr>messages = [initial_message toString (Some applicant_ana) 0,
                       \<lparr>msg_id = toString 1700000000000, content = lit ''Hi'', role = User,
                        timestamp = 1700000000001\<rparr>],
           last_render = [initial_message toString (Some applicant_ana) 0],
           wsRef = Some ?ws,
           applicationContext = Some applicant_ana,
           console = [lit ''WebSocket is not connected'']\<rparr>"
  have h1: "run (Chatbot_mount (apiConfig None None) toString (Some applicant_ana) 0)
     [UserSend (lit ''Hi'') 1700000000000 1700000000001] = Inr ?s"
    by (simp add: Chatbot_mount_def Chatbot_useEffect_def Chatbot_useState_def new_WebSocket_def
        handleSendMessage_def Let_def)
  have h2: "Opened \<notin> set [UserSend (lit ''Hi'') 1700000000000 1700000000001]" by simp
  have h3: "wsRef ?s = Some ?ws" by simp
  have h4: "readyState ?ws = CONNECTING" by (simp add: new_WebSocket_def)
  from priming_on_open [OF h1 h2 h3 h4] obtain s' where
    s': "step ?s Opened = Inr s'"
      "transmitted s' = [Json \<lparr>message = lit ''Initialize conversation with application context'',
                  history = [], context = Some applicant_ana\<rparr>]"
    by auto
  have "run (Chatbot_mount (apiConfig None None) toString (Some applicant_ana) 0)
          ([UserSend (lit ''Hi'') 1700000000000 1700000000001] @ [Opened]) = Inr s'"
    using run_snoc [OF h1, of Opened] s'(1) by simp
  with s'(2) h1 h2 show ?thesis by simp
qed

section \<open>Incoming frames\<close>

text \<open>
  Claim C4. In both variants of the widget a frame whose text is \<open>"connected"\<close> leaves
  the transcript as it was, and every other frame appends exactly one assistant message.
\<close>

theorem sentinel_frame_ignored:
  "(\<exists>s'. step s (Frame responseText now date) = Inr s' \<and>
      messages s' =
        (if responseText = lit ''connected'' then messages s
         else messages s @
           [\<lparr>msg_id = toString now, content = responseText, role = Assistant,
             timestamp = date\<rparr>]))
   \<and> (\<exists>c. fallback_onmessage prev responseText now date =
        (if responseText = lit ''connected'' then prev
         else prev @ [\<lparr>msg_id = toString now, content = c, role = Assistant,
                       timestamp = date\<rparr>]))"
  by (simp add: onmessage_def fallback_onmessage_def)

theorem sentinel_frame_ignored_witness:
  "map_sum id messages (step welcomed (Frame (lit ''connected'') 1700000003000 1700000003001))
     = Inr (messages welcomed)
   \<and> map_sum id messages (step welcomed (Frame (lit ''Sure'') 1700000003000 1700000003001))
     = Inr (messages welcomed @
         [\<lparr>msg_id = toString 1700000003000, content = lit ''Sure'', role = Assistant,
           timestamp = 1700000003001\<rparr>])
   \<and> fallback_onmessage [] (lit ''connected'') 1700000003000 1700000003001 = []
   \<and> length (fallback_onmessage [] (lit ''echo: Sure'') 1700000003000 1700000003001) = 1"
proof -
  have ne: "lit ''Sure'' \<noteq> lit ''connected''" "lit ''echo: Sure'' \<noteq> lit ''connected''"
    by (simp_all add: lit_def)
  from sentinel_frame_ignored [of welcomed "lit ''connected''" 1700000003000 1700000003001
      "[]" ]
  have a: "map_sum id messages (step welcomed (Frame (lit ''connected'') 1700000003000 1700000003001))
     = Inr (messages welcomed)"
    and c: "fallback_onmessage [] (lit ''connected'') 1700000003000 1700000003001 = []"
    by auto
  from sentinel_frame_ignored [of welcomed "lit ''Sure''" 1700000003000 1700000003001
      "[]"] ne
  have b: "map_sum id messages (step welcomed (Frame (lit ''Sure'') 1700000003000 1700000003001))
     = Inr (messages welcomed @
         [\<lparr>msg_id = toString 1700000003000, content = lit ''Sure'', role = Assistant,
           timestamp = 1700000003001\<rparr>])"
    by auto
  from sentinel_frame_ignored [of welcomed "lit ''echo: Sure''" 1700000003000 1700000003001
      "[]"] ne
  have d: "length (fallback_onmessage [] (lit ''echo: Sure'') 1700000003000 1700000003001) = 1"
    by auto
  from a b c d show ?thesis by simp
qed

section \<open>Message identifiers\<close>

text \<open>
  The identifiers of a transcript are \<open>"1"\<close> for the greeting, followed by the decimal
  reading of \<open>Date.now()\<close> taken at each append.
\<close>

lemma transcript_identifiers:
  assumes "run (Chatbot_mount cfg fmt ctx d0) evs = Inr s"
  shows "map msg_id (messages s) = lit ''1'' # map toString (clock_reads evs)"
proof -
  from run_messages [OF assms] obtain rest where
    "messages s = initial_message fmt ctx d0 # rest"
    "map msg_id rest = map toString (clock_reads evs)"
    by (auto simp: mount_messages)
  then show ?thesis by (simp add: initial_message_def)
qed

text \<open>
  Claim C5. Nothing but the clock tells identifiers apart: two frames handled within the
  same millisecond get the same identifier, so the identifiers of this reachable
  transcript are not pairwise distinct.
\<close>

theorem identifiers_collide_same_millisecond:
  "map_sum id (map msg_id \<circ> messages)
     (run (Chatbot_mount (apiConfig None None) toString (None :: nat ApplicationContext option) 0)
        [Opened, Frame (lit ''Hello'') 1700000000000 1700000000000,
                 Frame (lit ''How can I help?'') 1700000000000 1700000000000])
   = Inr [lit ''1'', lit ''1700000000000'', lit ''1700000000000'']
   \<and> map_sum id (distinct \<circ> map msg_id \<circ> messages)
     (run (Chatbot_mount (apiConfig None None) toString (None :: nat ApplicationContext option) 0)
        [Opened, Frame (lit ''Hello'') 1700000000000 1700000000000,
                 Frame (lit ''How can I help?'') 1700000000000 1700000000000])
   = Inr False"
  by (simp add: Chatbot_mount_def Chatbot_useEffect_def Chatbot_useState_def new_WebSocket_def
      onopen_def onmessage_def Let_def initial_message_def toString.simps digit_def lit_def)

section \<open>The argument of the WebSocket constructor\<close>

text \<open>
  Claim C6. The widget constructs its socket from \<open>apiConfig.endpoints.chatWs\<close>, which
  is a function of the application identifier; it is passed as it is, not applied. For
  the applicant with identifier \<open>"42"\<close> in the default environment the argument is
  that function and not the string \<open>"ws://localhost:8000/ws/chat/42"\<close>, which is what
  the function returns for \<open>"42"\<close>.
\<close>

theorem websocket_constructor_argument:
  "map_option url_arg (wsRef (Chatbot_mount (apiConfig None None) toString (Some applicant_ana) 0))
     = Some (JsFunction (chatWs (endpoints (apiConfig None None))))
   \<and> map_option url_arg (wsRef (Chatbot_mount (apiConfig None None) toString (Some applicant_ana) 0))
     \<noteq> Some (JsString (lit ''ws://localhost:8000/ws/chat/42''))
   \<and> chatWs (endpoints (apiConfig None None)) (ctx_id applicant_ana)
     = lit ''ws://localhost:8000/ws/chat/42''"
  by (simp add: Chatbot_mount_def Chatbot_useEffect_def Chatbot_useState_def new_WebSocket_def
      apiConfig_def env_or_def applicant_ana_def lit_def)

section \<open>Sends are guarded by the ready state\<close>

text \<open>
  Claim C7. When the socket is not open (missing, connecting, closing or closed), the
  send sites \<open>handleSendMessage\<close> and \<open>onopen\<close>, and the fallback's \<open>handleSendMessage\<close>,
  return without a fault and leave the socket untouched. From such a state, if the socket
  can no longer open, every further run of events ends without a fault, transmits nothing
  and passes nothing to \<open>send\<close>. In every session no frame is ever passed to \<open>send\<close> on a
  socket that is not open.
\<close>

theorem sends_guarded_by_open:
  assumes "\<forall>ws. wsRef s = Some ws \<longrightarrow>
             readyState ws \<noteq> OPEN \<and> (readyState ws = CONNECTING \<longrightarrow> Opened \<notin> set evs)"
  shows "(\<exists>s'. handleSendMessage s rendered msg now date = Inr s' \<and> wsRef s' = wsRef s)
       \<and> (\<exists>s'. onopen s = Inr s' \<and> wsRef s' = wsRef s)
       \<and> (\<exists>s'. fallback_handleSendMessage s msg now date = Inr s' \<and> wsRef s' = wsRef s)
       \<and> (\<exists>s'. run s evs = Inr s' \<and> transmitted s' = transmitted s \<and> dropped s' = dropped s)
       \<and> (\<exists>s0. run (Chatbot_mount cfg fmt ctx d0) evs0 = Inr s0 \<and> dropped s0 = [])"
proof -
  have closed: "\<forall>ws. wsRef s = Some ws \<longrightarrow> readyState ws \<noteq> OPEN" using assms by blast
  have a: "\<exists>s'. handleSendMessage s rendered msg now date = Inr s' \<and> wsRef s' = wsRef s"
    using handleSendMessage_not_open [OF closed, of rendered msg now date] by simp
  have b: "\<exists>s'. onopen s = Inr s' \<and> wsRef s' = wsRef s"
    using closed by (auto simp: onopen_def Let_def split: option.splits)
  have c: "\<exists>s'. fallback_handleSendMessage s msg now date = Inr s' \<and> wsRef s' = wsRef s"
    using closed by (auto simp: fallback_handleSendMessage_def Let_def split: option.splits)
  from run_idle [OF assms] obtain s' where
    s': "run s evs = Inr s'" "transmitted s' = transmitted s" by blast
  have d: "dropped s' = dropped s" using run_dropped [OF s'(1)] .
  obtain s0 where s0: "run (Chatbot_mount cfg fmt ctx d0) evs0 = Inr s0"
    using run_total by blast
  have "dropped s0 = dropped (Chatbot_mount cfg fmt ctx d0)" using run_dropped [OF s0] .
  then have e: "dropped s0 = []" by (simp add: dropped_def mount_socket new_WebSocket_def)
  from a b c s' d s0 e show ?thesis by blast
qed

theorem sends_guarded_by_open_witness:
  "map_option readyState
     (wsRef (Chatbot_mount (apiConfig None None) toString (Some applicant_ana) 0))
     = Some CONNECTING
   \<and> Opened \<notin> set [UserSend (lit ''Hi'') 1700000000000 1700000000001, Closed,
                    UserSend (lit ''Anyone?'') 1700000005000 1700000005001]
   \<and> (\<exists>s'. run (Chatbot_mount (apiConfig None None) toString (Some applicant_ana) 0)
          [UserSend (lit ''Hi'') 1700000000000 1700000000001, Closed,
           UserSend (lit ''Anyone?'') 1700000005000 1700000005001] = Inr s'
        \<and> transmitted s' = [] \<and> dropped s' = [])"
proof -
  let ?s = "Chatbot_mount (apiConfig None None) toString (Some applicant_ana) 0"
  let ?evs = "[UserSend (lit ''Hi'') 1700000000000 1700000000001, Closed,
               UserSend (lit ''Anyone?'') 1700000005000 1700000005001]"
  have h1: "map_option readyState (wsRef ?s) = Some CONNECTING"
    by (simp add: mount_socket new_WebSocket_def)
  have h2: "Opened \<notin> set ?evs" by simp
  have h: "\<forall>ws. wsRef ?s = Some ws \<longrightarrow>
             readyState ws \<noteq> OPEN \<and> (readyState ws = CONNECTING \<longrightarrow> Opened \<notin> set ?evs)"
    by (simp add: mount_socket new_WebSocket_def)
  have t: "transmitted ?s = []" "dropped ?s = []"
    by (simp_all add: transmitted_def dropped_def mount_socket new_WebSocket_def)
  note guarded = sends_guarded_by_open [OF h]
  have "\<exists>s'. run ?s ?evs = Inr s' \<and> transmitted s' = transmitted ?s \<and> dropped s' = dropped ?s"
    by (rule guarded [THEN conjunct2, THEN conjunct2, THEN conjunct2, THEN conjunct1])
  then have "\<exists>s'. run ?s ?evs = Inr s' \<and> transmitted s' = [] \<and> dropped s' = []"
    by (simp only: t)
  with h1 h2 show ?thesis by blast
qed

section \<open>The application context\<close>

text \<open>
  Claim C8. After any run of events of a session the context held by the widget is the
  one it was mounted with, and every transmitted frame, the priming envelope as well as
  each per-turn payload, is a payload whose \<open>context\<close> is that same value.
\<close>

theorem context_passed_unmodified:
  assumes "run (Chatbot_mount cfg fmt ctx d0) evs = Inr s"
  shows "applicationContext s = ctx \<and>
         (\<forall>f \<in> set (transmitted s). \<exists>p. f = Json p \<and> context p = ctx)"
proof -
  have "applicationContext s = ctx"
    using run_context [OF assms] by (simp add: mount_context)
  moreover have "\<forall>f \<in> set (transmitted s). \<exists>p. f = Json p \<and> context p = ctx"
    using run_sent_context [OF assms]
    by (auto simp: transmitted_def mount_socket new_WebSocket_def mount_context)
  ultimately show ?thesis by blast
qed

theorem context_passed_unmodified_witness:
  "run (Chatbot_mount (apiConfig None None) toString (Some applicant_ana) 0)
     [Opened, UserSend (lit ''Hi'') 1700000000000 1700000000001] = Inr primed
   \<and> applicationContext primed = Some applicant_ana
   \<and> list_all (\<lambda>f. \<exists>p. f = Json p \<and> context p = Some applicant_ana) (transmitted primed)"
proof -
  have h: "run (Chatbot_mount (apiConfig None None) toString (Some applicant_ana) 0)
     [Opened, UserSend (lit ''Hi'') 1700000000000 1700000000001] = Inr primed"
    by (simp add: primed_def Chatbot_mount_def Chatbot_useEffect_def Chatbot_useState_def
        new_WebSocket_def onopen_def handleSendMessage_def Let_def ws_send_def priming_def
        initial_message_def toString.simps digit_def lit_def)
  from context_passed_unmodified [OF h] h show ?thesis
    by (simp add: list_all_iff)
qed

section \<open>What \<open>ChatInput\<close> sends\<close>

text \<open>
  Claim C9. On a key event \<open>onSend\<close> is called exactly when the key is Enter without
  Shift and the trimmed value is not empty, on a click exactly when the trimmed value is
  not empty; it receives the value untrimmed, and the textarea is cleared. The trimmed
  value is not empty exactly when some code unit is not white space, so through this
  input the transcript of the \<open>Chatbot\<close> gains either nothing or one user message whose
  text is not white space only.
\<close>

theorem ChatInput_sends_nonblank:
  "handleKeyPress record_call e (v, calls) =
     Inr (key e = lit ''Enter'' \<and> \<not> shiftKey e,
          if key e = lit ''Enter'' \<and> \<not> shiftKey e \<and> trim v \<noteq> [] then [] else v,
          if key e = lit ''Enter'' \<and> \<not> shiftKey e \<and> trim v \<noteq> [] then calls @ [v] else calls)
   \<and> handleSendClick record_call (Some v, calls) =
     Inr (Some (if trim v \<noteq> [] then [] else v), if trim v \<noteq> [] then calls @ [v] else calls)
   \<and> handleSendClick record_call (None, calls) = Inr (None, calls)
   \<and> (trim v \<noteq> []) = (\<exists>c \<in> set v. \<not> is_trimmed_unit c)
   \<and> (\<exists>p v' s'. handleKeyPress (Chatbot_onSend now date) e (v, s) = Inr (p, v', s') \<and>
        (if key e = lit ''Enter'' \<and> \<not> shiftKey e \<and> (\<exists>c \<in> set v. \<not> is_trimmed_unit c)
         then messages s' = messages s @
                [\<lparr>msg_id = toString now, content = v, role = User, timestamp = date\<rparr>]
         else s' = s))
   \<and> (\<exists>v' s'. handleSendClick (Chatbot_onSend now date) (Some v, s) = Inr (v', s') \<and>
        (if \<exists>c \<in> set v. \<not> is_trimmed_unit c
         then messages s' = messages s @
                [\<lparr>msg_id = toString now, content = v, role = User, timestamp = date\<rparr>]
         else s' = s))"
proof -
  have t: "(trim v \<noteq> []) = (\<exists>c \<in> set v. \<not> is_trimmed_unit c)"
    by (simp add: trim_eq_Nil)
  obtain s1 where s1: "handleSendMessage s (last_render s) v now date = Inr s1"
    using handleSendMessage_total by blast
  have m: "messages s1 = messages s @
      [\<lparr>msg_id = toString now, content = v, role = User, timestamp = date\<rparr>]"
    using handleSendMessage_messages(1) [OF s1] .
  have a: "handleKeyPress record_call e (v, calls) =
     Inr (key e = lit ''Enter'' \<and> \<not> shiftKey e,
          if key e = lit ''Enter'' \<and> \<not> shiftKey e \<and> trim v \<noteq> [] then [] else v,
          if key e = lit ''Enter'' \<and> \<not> shiftKey e \<and> trim v \<noteq> [] then calls @ [v] else calls)"
    by (simp add: handleKeyPress_def record_call_def)
  have b: "handleSendClick record_call (Some v, calls) =
     Inr (Some (if trim v \<noteq> [] then [] else v), if trim v \<noteq> [] then calls @ [v] else calls)"
    by (simp add: handleSendClick_def record_call_def)
  have c: "handleSendClick record_call (None, calls) = Inr (None, calls)"
    by (simp add: handleSendClick_def)
  have d: "\<exists>p v' s'. handleKeyPress (Chatbot_onSend now date) e (v, s) = Inr (p, v', s') \<and>
        (if key e = lit ''Enter'' \<and> \<not> shiftKey e \<and> (\<exists>c \<in> set v. \<not> is_trimmed_unit c)
         then messages s' = messages s @
                [\<lparr>msg_id = toString now, content = v, role = User, timestamp = date\<rparr>]
         else s' = s)"
    using s1 m t by (auto simp: handleKeyPress_def Chatbot_onSend_def)
  have e: "\<exists>v' s'. handleSendClick (Chatbot_onSend now date) (Some v, s) = Inr (v', s') \<and>
        (if \<exists>c \<in> set v. \<not> is_trimmed_unit c
         then messages s' = messages s @
                [\<lparr>msg_id = toString now, content = v, role = User, timestamp = date\<rparr>]
         else s' = s)"
    using s1 m t by (simp add: handleSendClick_def Chatbot_onSend_def)
  from a b c t d e show ?thesis by blast
qed

theorem ChatInput_sends_nonblank_witness:
  "handleKeyPress record_call \<lparr>key = lit ''Enter'', shiftKey = False\<rparr> (lit '' hi '', [])
     = Inr (True, [], [lit '' hi ''])
   \<and> handleKeyPress record_call \<lparr>key = lit ''Enter'', shiftKey = False\<rparr> (lit ''   '', [])
     = Inr (True, lit ''   '', [])
   \<and> handleKeyPress record_call \<lparr>key = lit ''Enter'', shiftKey = True\<rparr> (lit '' hi '', [])
     = Inr (False, lit '' hi '', [])
   \<and> handleSendClick record_call (Some (lit '' hi ''), []) = Inr (Some [], [lit '' hi ''])
   \<and> handleSendClick record_call (Some (lit ''   ''), []) = Inr (Some (lit ''   ''), [])"
proof -
  have hi: "trim (lit '' hi '') \<noteq> []"
    by (simp add: trim_def is_trimmed_unit_def WhiteSpace_def LineTerminator_def lit_def)
  have blank: "trim (lit ''   '') = []"
    by (simp add: trim_def is_trimmed_unit_def WhiteSpace_def LineTerminator_def lit_def)
  have k: "key \<lparr>key = lit ''Enter'', shiftKey = False\<rparr> = lit ''Enter''"
    "\<not> shiftKey \<lparr>key = lit ''Enter'', shiftKey = False\<rparr>"
    "shiftKey \<lparr>key = lit ''Enter'', shiftKey = True\<rparr>"
    by simp_all
  note a = ChatInput_sends_nonblank
    [of "\<lparr>key = lit ''Enter'', shiftKey = False\<rparr>" "lit '' hi ''" "[]" 0 0 welcomed]
  note b = ChatInput_sends_nonblank
    [of "\<lparr>key = lit ''Enter'', shiftKey = False\<rparr>" "lit ''   ''" "[]" 0 0 welcomed]
  note c = ChatInput_sends_nonblank
    [of "\<lparr>key = lit ''Enter'', shiftKey = True\<rparr>" "lit '' hi ''" "[]" 0 0 welcomed]
  from a hi have 1: "handleKeyPress record_call \<lparr>key = lit ''Enter'', shiftKey = False\<rparr>
      (lit '' hi '', []) = Inr (True, [], [lit '' hi ''])"
    and 4: "handleSendClick record_call (Some (lit '' hi ''), []) = Inr (Some [], [lit '' hi ''])"
    by simp_all
  from b blank have 2: "handleKeyPress record_call \<lparr>key = lit ''Enter'', shiftKey = False\<rparr>
      (lit ''   '', []) = Inr (True, lit ''   '', [])"
    and 5: "handleSendClick record_call (Some (lit ''   ''), []) = Inr (Some (lit ''   ''), [])"
    by simp_all
  from c have 3: "handleKeyPress record_call \<lparr>key = lit ''Enter'', shiftKey = True\<rparr>
      (lit '' hi '', []) = Inr (False, lit '' hi '', [])"
    by simp
  from 1 2 3 4 5 show ?thesis by blast
qed

section \<open>The fallback strips the echo prefix\<close>

text \<open>
  Claim C10. In the fallback variant every frame other than \<open>"connected"\<close> is appended as
  one assistant message; its text is the frame's with the first occurrence of
  \<open>"echo: "\<close> removed, and the frame's text itself when \<open>"echo: "\<close> does not occur.
\<close>

theorem fallback_strips_first_echo:
  assumes "responseText \<noteq> lit ''connected''"
  shows "\<exists>c. fallback_onmessage prev responseText now date =
           prev @ [\<lparr>msg_id = toString now, content = c, role = Assistant, timestamp = date\<rparr>]
         \<and> ((\<forall>a b. responseText \<noteq> a @ lit ''echo: '' @ b) \<longrightarrow> c = responseText)
         \<and> (\<forall>a b. responseText = a @ lit ''echo: '' @ b \<and>
               (\<forall>a' b'. responseText = a' @ lit ''echo: '' @ b' \<longrightarrow> length a \<le> length a')
               \<longrightarrow> c = a @ b)"
proof -
  let ?c = "replace responseText (lit ''echo: '') []"
  have "fallback_onmessage prev responseText now date =
      prev @ [\<lparr>msg_id = toString now, content = ?c, role = Assistant, timestamp = date\<rparr>]"
    using assms by (simp add: fallback_onmessage_def)
  moreover have "(\<forall>a b. responseText \<noteq> a @ lit ''echo: '' @ b) \<longrightarrow> ?c = responseText"
    using replace_none by blast
  moreover have "\<forall>a b. responseText = a @ lit ''echo: '' @ b \<and>
               (\<forall>a' b'. responseText = a' @ lit ''echo: '' @ b' \<longrightarrow> length a \<le> length a')
               \<longrightarrow> ?c = a @ b"
    using replace_first [where rep = "[]"] by auto
  ultimately show ?thesis by blast
qed

theorem fallback_strips_first_echo_witness:
  "lit ''echo: echo: hi'' \<noteq> lit ''connected''
   \<and> fallback_onmessage [] (lit ''echo: echo: hi'') 1700000000000 1700000000001
     = [\<lparr>msg_id = toString 1700000000000, content = lit ''echo: hi'', role = Assistant,
         timestamp = 1700000000001\<rparr>]
   \<and> lit ''hello'' \<noteq> lit ''connected''
   \<and> fallback_onmessage [] (lit ''hello'') 1700000000000 1700000000001
     = [\<lparr>msg_id = toString 1700000000000, content = lit ''hello'', role = Assistant,
         timestamp = 1700000000001\<rparr>]"
proof -
  have h1: "lit ''echo: echo: hi'' \<noteq> lit ''connected''" by (simp add: lit_def)
  have h2: "lit ''hello'' \<noteq> lit ''connected''" by (simp add: lit_def)
  have split: "lit ''echo: echo: hi'' = [] @ lit ''echo: '' @ lit ''echo: hi''"
    by (simp add: lit_def)
  have first: "\<forall>a' b'. lit ''echo: echo: hi'' = a' @ lit ''echo: '' @ b'
      \<longrightarrow> length ([] :: jsstring) \<le> length a'"
    by simp
  have absent: "\<forall>a b. lit ''hello'' \<noteq> a @ lit ''echo: '' @ b"
  proof (intro allI notI)
    fix a b assume "lit ''hello'' = a @ lit ''echo: '' @ b"
    then have "length (lit ''hello'') = length (a @ lit ''echo: '' @ b)" by simp
    then show False by (simp add: lit_def)
  qed
  from fallback_strips_first_echo [OF h1, of "[]" 1700000000000 1700000000001] split first
  have a: "fallback_onmessage [] (lit ''echo: echo: hi'') 1700000000000 1700000000001
     = [\<lparr>msg_id = toString 1700000000000, content = lit ''echo: hi'', role = Assistant,
         timestamp = 1700000000001\<rparr>]"
    by (metis append_Nil)
  from fallback_strips_first_echo [OF h2, of "[]" 1700000000000 1700000000001] absent
  have b: "fallback_onmessage [] (lit ''hello'') 1700000000000 1700000000001
     = [\<lparr>msg_id = toString 1700000000000, content = lit ''hello'', role = Assistant,
         timestamp = 1700000000001\<rparr>]"
    by (metis append_Nil)
  from h1 a h2 b show ?thesis by blast
qed

end
